theory Spec2Isabelle
  imports Main "HOL-Library.Multiset"
begin

section \<open>Values, stored records and errors\<close>

text \<open>
  The collections are JSON files holding a list of objects. A field of a stored object is
  a string, an integer or (for a student's \<open>marks\<close>) a mapping from subject name to an
  integer score. A stored object is a Python dict: an association list in insertion
  order, read with \<open>map_of\<close>.
\<close>

datatype pyval = PStr string | PInt int | PDict "(string \<times> int) list"

type_synonym dict = "(string \<times> pyval) list"

text \<open>
  The exceptions of \<open>exceptions.py\<close> and the built-in ones the code can raise. The
  string is the message the exception carries.
\<close>

datatype error =
    ValueError string
  | KeyError string
  | AttributeError
  | ZeroDivisionError
  | AuthenticationError string
  | NoMatchingNameError string

text \<open>\<open>d[k]\<close> raises KeyError on a missing key; \<open>d.get(k)\<close> gives None.\<close>

definition getitem :: "dict \<Rightarrow> string \<Rightarrow> error + pyval" where
  "getitem d k = (case map_of d k of None \<Rightarrow> Inl (KeyError k) | Some v \<Rightarrow> Inr v)"

definition dict_get :: "dict \<Rightarrow> string \<Rightarrow> pyval option" where
  "dict_get d k = map_of d k"

section \<open>Built-ins: \<open>str\<close> of an integer and \<open>int\<close> of a string\<close>

definition digit_char :: "nat \<Rightarrow> char" where
  "digit_char d = ''0123456789'' ! d"

function str_nat :: "nat \<Rightarrow> string" where
  "str_nat n = (if n < 10 then [digit_char n] else str_nat (n div 10) @ [digit_char (n mod 10)])"
  by pat_completeness auto
termination
  by (relation "measure id") auto

definition str_int :: "int \<Rightarrow> string" where
  "str_int i = (if i < 0 then CHR ''-'' # str_nat (nat (- i)) else str_nat (nat i))"

text \<open>
  \<open>int(s)\<close> for a string: surrounding ASCII whitespace is dropped, then an optional
  sign, then decimal digits, which single underscores may separate. Anything else raises
  ValueError (here \<open>None\<close>).
\<close>

definition is_digit :: "char \<Rightarrow> bool" where
  "is_digit c = (c \<in> set ''0123456789'')"

definition digit_value :: "char \<Rightarrow> nat" where
  "digit_value c = of_char c - 48"

definition is_space :: "char \<Rightarrow> bool" where
  "is_space c = (c \<in> {CHR '' '', CHR 0x09, CHR 0x0A, CHR 0x0B, CHR 0x0C, CHR 0x0D})"

definition strip :: "string \<Rightarrow> string" where
  "strip s = rev (dropWhile is_space (rev (dropWhile is_space s)))"

fun parse_digits :: "nat \<Rightarrow> string \<Rightarrow> nat option" where
  "parse_digits acc [] = Some acc"
| "parse_digits acc [c] = (if is_digit c then Some (acc * 10 + digit_value c) else None)"
| "parse_digits acc (c # d # ds) =
     (if is_digit c then parse_digits (acc * 10 + digit_value c) (d # ds)
      else if c = CHR ''_'' \<and> is_digit d then parse_digits (acc * 10 + digit_value d) ds
      else None)"

definition parse_unsigned :: "string \<Rightarrow> nat option" where
  "parse_unsigned s =
     (case s of [] \<Rightarrow> None
      | c # cs \<Rightarrow> if is_digit c then parse_digits (digit_value c) cs else None)"

definition py_int :: "string \<Rightarrow> int option" where
  "py_int s =
     (case strip s of [] \<Rightarrow> None
      | c # cs \<Rightarrow>
          if c = CHR ''-'' then map_option (\<lambda>n. - int n) (parse_unsigned cs)
          else if c = CHR ''+'' then map_option int (parse_unsigned cs)
          else map_option int (parse_unsigned (c # cs)))"

section \<open>Validation (\<open>models/teacher.py\<close>)\<close>

subsection \<open>The regular expression of \<open>validate_email\<close>\<close>

text \<open>
  The pattern \<^verbatim>\<open>[^@]+@[^@]+\.[^@]+\<close> is a sequence of items: a character test, taken
  once or one-or-more times. \<open>re.match\<close> looks for a match that starts at the first
  character of the string and may end anywhere: \<open>prefix_match\<close> is true as soon as the
  pattern is used up, whatever input is left. A one-or-more item tries both to go on and
  to stop, as backtracking does.
\<close>

datatype atom = Lit char | NotLit char

datatype quant = Once | Plus

fun atom_ok :: "atom \<Rightarrow> char \<Rightarrow> bool" where
  "atom_ok (Lit a) c = (c = a)"
| "atom_ok (NotLit a) c = (c \<noteq> a)"

fun prefix_match :: "(atom \<times> quant) list \<Rightarrow> string \<Rightarrow> bool" where
  "prefix_match [] s = True"
| "prefix_match (i # p) [] = False"
| "prefix_match ((a, Once) # p) (c # s) = (atom_ok a c \<and> prefix_match p s)"
| "prefix_match ((a, Plus) # p) (c # s) =
     (atom_ok a c \<and> (prefix_match ((a, Plus) # p) s \<or> prefix_match p s))"

definition email_pattern :: "(atom \<times> quant) list" where
  "email_pattern =
     [(NotLit CHR ''@'', Plus), (Lit CHR ''@'', Once), (NotLit CHR ''@'', Plus),
      (Lit CHR ''.'', Once), (NotLit CHR ''@'', Plus)]"

definition re_match :: "(atom \<times> quant) list \<Rightarrow> string \<Rightarrow> bool" where
  "re_match p s = prefix_match p s"

definition validate_email :: "string \<Rightarrow> error + string" where
  "validate_email email =
     (if re_match email_pattern email then Inr email
      else Inl (ValueError ''Invalid email address''))"

text \<open>
  The shape the specification gives for an accepted address, over the whole string:
  one or more non-@ characters, @, one or more non-@ characters, a dot, one or more non-@
  characters.
\<close>

definition email_shape :: "string \<Rightarrow> bool" where
  "email_shape s =
     (\<exists>u v w. s = u @ ''@'' @ v @ ''.'' @ w \<and> u \<noteq> [] \<and> v \<noteq> [] \<and> w \<noteq> [] \<and>
        CHR ''@'' \<notin> set u \<and> CHR ''@'' \<notin> set v \<and> CHR ''@'' \<notin> set w)"

subsection \<open>The phone number\<close>

text \<open>
  \<open>isinstance(phone_number, int) and len(str(phone_number)) == 10\<close>: the length is
  that of the printed integer, sign included.
\<close>

definition validate_phone_number :: "pyval \<Rightarrow> error + pyval" where
  "validate_phone_number phone_number =
     (case phone_number of
        PInt i \<Rightarrow>
          if length (str_int i) = 10 then Inr phone_number
          else Inl (ValueError ''Phone number must be an integer with 10 digits'')
      | _ \<Rightarrow> Inl (ValueError ''Phone number must be an integer with 10 digits''))"

section \<open>The blob store (\<open>file_operations.py\<close>)\<close>

text \<open>
  The world a run acts on: the files, by path, and what the run has done so far, in
  order: the lines printed and the files written.
\<close>

datatype event = Print string | Write string

record world =
  files :: "string \<rightharpoonup> dict list"
  events :: "event list"

definition py_print :: "world \<Rightarrow> string \<Rightarrow> world" where
  "py_print w msg = w\<lparr>events := events w @ [Print msg]\<rparr>"

definition read_json :: "world \<Rightarrow> string \<Rightarrow> dict list" where
  "read_json w file_path = (case files w file_path of None \<Rightarrow> [] | Some data \<Rightarrow> data)"

definition write_json :: "world \<Rightarrow> string \<Rightarrow> dict list \<Rightarrow> world" where
  "write_json w file_path data =
     w\<lparr>files := (files w)(file_path \<mapsto> data), events := events w @ [Write file_path]\<rparr>"

definition append_json :: "world \<Rightarrow> string \<Rightarrow> dict \<Rightarrow> world" where
  "append_json w file_path new_data =
     write_json w file_path (read_json w file_path @ [new_data])"

section \<open>The authenticator (\<open>authentication.py\<close>)\<close>

fun auth_loop :: "dict list \<Rightarrow> string \<Rightarrow> string \<Rightarrow> error + bool" where
  "auth_loop [] name teacher_id = Inl (AuthenticationError ''Invalid teacher credentials'')"
| "auth_loop (entry # data) name teacher_id =
     (case getitem entry ''name'' of
        Inl e \<Rightarrow> Inl e
      | Inr n \<Rightarrow>
          if n = PStr name then
            (case getitem entry ''id'' of
               Inl e \<Rightarrow> Inl e
             | Inr i \<Rightarrow> if i = PStr teacher_id then Inr True else auth_loop data name teacher_id)
          else auth_loop data name teacher_id)"

definition verified_msg :: string where
  "verified_msg = ''Verified Successfully!!!''"

definition authenticate_teacher ::
  "world \<Rightarrow> string \<Rightarrow> string \<Rightarrow> string \<Rightarrow> (error + bool) \<times> world" where
  "authenticate_teacher w teachers_file name teacher_id =
     (case auth_loop (read_json w teachers_file) name teacher_id of
        Inl e \<Rightarrow> (Inl e, w)
      | Inr b \<Rightarrow> (Inr b, py_print w verified_msg))"

section \<open>Teachers (\<open>models/teacher.py\<close>)\<close>

record teacher =
  t_name :: string
  t_subject :: string
  t_teacher_id :: string
  t_address :: string
  t_email :: string
  t_phone_number :: pyval

definition Teacher_init ::
  "string \<Rightarrow> string \<Rightarrow> string \<Rightarrow> string \<Rightarrow> string \<Rightarrow> pyval \<Rightarrow> error + teacher" where
  "Teacher_init name subject teacher_id address email phone_number =
     (case validate_email email of
        Inl e \<Rightarrow> Inl e
      | Inr em \<Rightarrow>
          (case validate_phone_number phone_number of
             Inl e \<Rightarrow> Inl e
           | Inr ph \<Rightarrow>
               Inr \<lparr>t_name = name, t_subject = subject, t_teacher_id = teacher_id,
                    t_address = address, t_email = em, t_phone_number = ph\<rparr>))"

definition Teacher_accept :: "world \<Rightarrow> teacher \<Rightarrow> string \<Rightarrow> world" where
  "Teacher_accept w self file_path =
     py_print
       (append_json w file_path
          [(''name'', PStr (t_name self)),
           (''subject'', PStr (t_subject self)),
           (''id'', PStr (t_teacher_id self)),
           (''address'', PStr (t_address self)),
           (''email'', PStr (t_email self)),
           (''phone_number'', t_phone_number self)])
       ''Teacher added successfully!''"

text \<open>The loop of \<open>search\<close> and the comprehension of \<open>delete\<close>, the same in both classes.\<close>

fun search_loop :: "dict list \<Rightarrow> string \<Rightarrow> error + dict" where
  "search_loop [] name = Inl (NoMatchingNameError ''No matching name found'')"
| "search_loop (entry # data) name =
     (case getitem entry ''name'' of
        Inl e \<Rightarrow> Inl e
      | Inr n \<Rightarrow> if n = PStr name then Inr entry else search_loop data name)"

fun without_name :: "dict list \<Rightarrow> string \<Rightarrow> error + dict list" where
  "without_name [] name = Inr []"
| "without_name (entry # data) name =
     (case getitem entry ''name'' of
        Inl e \<Rightarrow> Inl e
      | Inr n \<Rightarrow>
          (case without_name data name of
             Inl e \<Rightarrow> Inl e
           | Inr new_data \<Rightarrow> Inr (if n \<noteq> PStr name then entry # new_data else new_data)))"

definition Teacher_search :: "world \<Rightarrow> string \<Rightarrow> string \<Rightarrow> error + dict" where
  "Teacher_search w file_path name = search_loop (read_json w file_path) name"

definition Teacher_delete :: "world \<Rightarrow> string \<Rightarrow> string \<Rightarrow> (error + unit) \<times> world" where
  "Teacher_delete w file_path name =
     (case without_name (read_json w file_path) name of
        Inl e \<Rightarrow> (Inl e, w)
      | Inr new_data \<Rightarrow> (Inr (), write_json w file_path new_data))"

section \<open>Students (\<open>models/student.py\<close>)\<close>

record student =
  s_name :: string
  s_roll_number :: string
  s_email :: string
  s_phone_number :: pyval
  s_marks :: pyval
  s_address :: string

definition Student_init ::
  "string \<Rightarrow> string \<Rightarrow> string \<Rightarrow> pyval \<Rightarrow> pyval \<Rightarrow> string \<Rightarrow> student" where
  "Student_init name roll_number email phone_number marks address =
     \<lparr>s_name = name, s_roll_number = roll_number, s_email = email,
      s_phone_number = phone_number, s_marks = marks, s_address = address\<rparr>"

definition Student_accept :: "world \<Rightarrow> student \<Rightarrow> string \<Rightarrow> string \<Rightarrow> world" where
  "Student_accept w self file_path teachers_file =
     py_print
       (append_json w file_path
          [(''name'', PStr (s_name self)),
           (''roll_number'', PStr (s_roll_number self)),
           (''email'', PStr (s_email self)),
           (''phone_number'', s_phone_number self),
           (''marks'', s_marks self),
           (''address'', PStr (s_address self))])
       ''Student added successfully!''"

definition Student_search :: "world \<Rightarrow> string \<Rightarrow> string \<Rightarrow> error + dict" where
  "Student_search w file_path name = search_loop (read_json w file_path) name"

definition Student_delete :: "world \<Rightarrow> string \<Rightarrow> string \<Rightarrow> (error + unit) \<times> world" where
  "Student_delete w file_path name =
     (case without_name (read_json w file_path) name of
        Inl e \<Rightarrow> (Inl e, w)
      | Inr new_data \<Rightarrow> (Inr (), write_json w file_path new_data))"

subsection \<open>The scoring engine\<close>

text \<open>\<open>entry['marks'].values()\<close>: the scores, in the mapping's order.\<close>

definition marks_values :: "dict \<Rightarrow> error + int list" where
  "marks_values entry =
     (case getitem entry ''marks'' of
        Inl e \<Rightarrow> Inl e
      | Inr (PDict marks) \<Rightarrow> Inr (map snd marks)
      | Inr _ \<Rightarrow> Inl AttributeError)"

text \<open>\<open>all(mark >= 32 for mark in ...)\<close>.\<close>

definition all_pass :: "int list \<Rightarrow> bool" where
  "all_pass marks = list_all (\<lambda>mark. 32 \<le> mark) marks"

fun pass_fail_loop :: "dict list \<Rightarrow> error + dict list" where
  "pass_fail_loop [] = Inr []"
| "pass_fail_loop (entry # data) =
     (case marks_values entry of
        Inl e \<Rightarrow> Inl e
      | Inr marks \<Rightarrow>
          if all_pass marks then
            (case getitem entry ''name'' of
               Inl e \<Rightarrow> Inl e
             | Inr n \<Rightarrow>
                 (case getitem entry ''marks'' of
                    Inl e \<Rightarrow> Inl e
                  | Inr m \<Rightarrow>
                      (case pass_fail_loop data of
                         Inl e \<Rightarrow> Inl e
                       | Inr pass_students \<Rightarrow> Inr ([(''name'', n), (''marks'', m)] # pass_students))))
          else pass_fail_loop data)"

definition pass_fail_determination :: "world \<Rightarrow> string \<Rightarrow> error + dict list" where
  "pass_fail_determination w file_path = pass_fail_loop (read_json w file_path)"

text \<open>
  \<open>[entry for entry in data if all(mark >= 32 for mark in entry['marks'].values())]\<close>
  and \<open>[sum(entry['marks'].values()) for entry in passed_students]\<close>.
\<close>

fun passed_students :: "dict list \<Rightarrow> error + dict list" where
  "passed_students [] = Inr []"
| "passed_students (entry # data) =
     (case marks_values entry of
        Inl e \<Rightarrow> Inl e
      | Inr marks \<Rightarrow>
          (case passed_students data of
             Inl e \<Rightarrow> Inl e
           | Inr rest \<Rightarrow> Inr (if all_pass marks then entry # rest else rest)))"

fun total_marks :: "dict list \<Rightarrow> error + int list" where
  "total_marks [] = Inr []"
| "total_marks (entry # data) =
     (case marks_values entry of
        Inl e \<Rightarrow> Inl e
      | Inr marks \<Rightarrow>
          (case total_marks data of
             Inl e \<Rightarrow> Inl e
           | Inr rest \<Rightarrow> Inr (sum_list marks # rest)))"

text \<open>A number, or the placeholder \<open>"-"\<close> the code returns in its place.\<close>

datatype 'a or_dash = Number 'a | Dash

definition py_max :: "int list \<Rightarrow> int" where
  "py_max xs = fold max (tl xs) (hd xs)"

definition py_min :: "int list \<Rightarrow> int" where
  "py_min xs = fold min (tl xs) (hd xs)"

definition highest_and_lowest_scores ::
  "world \<Rightarrow> string \<Rightarrow> error + (int or_dash \<times> int or_dash)" where
  "highest_and_lowest_scores w file_path =
     (case passed_students (read_json w file_path) of
        Inl e \<Rightarrow> Inl e
      | Inr passed \<Rightarrow>
          (case total_marks passed of
             Inl e \<Rightarrow> Inl e
           | Inr totals \<Rightarrow>
               Inr (if totals \<noteq> [] then Number (py_max totals) else Dash,
                    if totals \<noteq> [] then Number (py_min totals) else Dash)))"

text \<open>
  \<open>calculate_percentage\<close> works in floating point once it divides. The three float
  operations it uses are parameters: the quotient of two integers (called with a
  non-zero divisor only), the product of a float and an integer, and \<open>round\<close> to a
  number of decimals. The division raises ZeroDivisionError on a zero divisor before
  any float exists.
\<close>

record 'f float_ops =
  truediv :: "int \<Rightarrow> int \<Rightarrow> 'f"
  times_int :: "'f \<Rightarrow> int \<Rightarrow> 'f"
  round_to :: "'f \<Rightarrow> nat \<Rightarrow> 'f"

definition calculate_percentage ::
  "'f float_ops \<Rightarrow> (string \<times> int) list \<Rightarrow> error + 'f or_dash" where
  "calculate_percentage fl marks =
     (let total = sum_list (map snd marks) in
      if list_ex (\<lambda>mark. mark < 32) (map snd marks) then Inr Dash
      else if int (length marks) * 100 = 0 then Inl ZeroDivisionError
      else Inr (Number (round_to fl
                  (times_int fl (truediv fl total (int (length marks) * 100)) 100) 3)))"

fun percentage_loop :: "'f float_ops \<Rightarrow> dict list \<Rightarrow> error + (pyval \<times> 'f or_dash) list" where
  "percentage_loop fl [] = Inr []"
| "percentage_loop fl (entry # data) =
     (case getitem entry ''marks'' of
        Inl e \<Rightarrow> Inl e
      | Inr (PDict marks) \<Rightarrow>
          (case calculate_percentage fl marks of
             Inl e \<Rightarrow> Inl e
           | Inr percentage \<Rightarrow>
               (case getitem entry ''name'' of
                  Inl e \<Rightarrow> Inl e
                | Inr n \<Rightarrow>
                    (case percentage_loop fl data of
                       Inl e \<Rightarrow> Inl e
                     | Inr percentages \<Rightarrow> Inr ((n, percentage) # percentages))))
      | Inr _ \<Rightarrow> Inl AttributeError)"

definition calculate_percentage_for_all ::
  "'f float_ops \<Rightarrow> world \<Rightarrow> string \<Rightarrow> error + (pyval \<times> 'f or_dash) list" where
  "calculate_percentage_for_all fl w file_path = percentage_loop fl (read_json w file_path)"

text \<open>
  \<open>sorted(passed_students, key=..., reverse=True)\<close>: the key of every entry is
  computed first; the sort is stable, also when reversed, so it is the stable sort by
  the negated key.
\<close>

definition sorted_by_total_desc :: "dict list \<Rightarrow> error + dict list" where
  "sorted_by_total_desc passed =
     (case total_marks passed of
        Inl e \<Rightarrow> Inl e
      | Inr keys \<Rightarrow> Inr (map snd (sort_key (\<lambda>(k, entry). - k) (zip keys passed))))"

fun rank_loop :: "nat \<Rightarrow> dict list \<Rightarrow> error + (pyval \<times> nat) list" where
  "rank_loop index [] = Inr []"
| "rank_loop index (entry # sorted_data) =
     (case getitem entry ''name'' of
        Inl e \<Rightarrow> Inl e
      | Inr n \<Rightarrow>
          (case rank_loop (index + 1) sorted_data of
             Inl e \<Rightarrow> Inl e
           | Inr ranks \<Rightarrow> Inr ((n, index + 1) # ranks)))"

definition calculate_rank :: "world \<Rightarrow> string \<Rightarrow> error + (pyval \<times> nat) list" where
  "calculate_rank w file_path =
     (case passed_students (read_json w file_path) of
        Inl e \<Rightarrow> Inl e
      | Inr passed \<Rightarrow>
          (case sorted_by_total_desc passed of
             Inl e \<Rightarrow> Inl e
           | Inr sorted_data \<Rightarrow> rank_loop 0 sorted_data))"

section \<open>The menu's operations (\<open>main.py\<close>)\<close>

definition TEACHERS_FILE :: string where
  "TEACHERS_FILE = ''../data/teachers.json''"

definition STUDENTS_FILE :: string where
  "STUDENTS_FILE = ''../data/students.json''"

text \<open>
  What the user types at the prompts of one operation: the name and id asked for the
  check, and the fields of the new record. For the marks, the record holds what
  \<open>json.loads\<close> makes of the line: the value, or the message of the ValueError it
  raises.
\<close>

record login =
  login_name :: string
  login_id :: string

record teacher_input =
  ti_name :: string
  ti_subject :: string
  ti_teacher_id :: string
  ti_address :: string
  ti_email :: string
  ti_phone_number :: string

record student_input =
  si_name :: string
  si_roll_number :: string
  si_email :: string
  si_phone_number :: string
  si_marks :: "string + pyval"
  si_address :: string

text \<open>The message of the ValueError \<open>int\<close> raises, the literal quoted plainly.\<close>

definition int_error :: "string \<Rightarrow> string" where
  "int_error s = ''invalid literal for int() with base 10: '' @ [CHR 0x27] @ s @ [CHR 0x27]"

definition auth_failed_msg :: string where
  "auth_failed_msg = ''Authentication failed. Only teachers can add new data.''"

definition verify_prompt :: string where
  "verify_prompt = ''You need to verify yourself as a teacher to add new entries.''"

text \<open>The body of the \<open>try\<close> of \<open>add_new_teacher_from_user\<close>.\<close>

definition add_new_teacher_try ::
  "world \<Rightarrow> string \<Rightarrow> login \<Rightarrow> teacher_input \<Rightarrow> (error + unit) \<times> world" where
  "add_new_teacher_try w file_path lg inp =
     (let teachers = read_json w file_path in
      case (if teachers \<noteq> [] then
              (case authenticate_teacher (py_print w verify_prompt) file_path
                      (login_name lg) (login_id lg) of
                 (Inl e, w') \<Rightarrow> (Inl e, w')
               | (Inr ok, w') \<Rightarrow>
                   if \<not> ok then (Inl (AuthenticationError auth_failed_msg), w')
                   else (Inr (), w'))
            else (Inr (), w)) of
        (Inl e, w1) \<Rightarrow> (Inl e, w1)
      | (Inr _, w1) \<Rightarrow>
          if list_ex (\<lambda>teacher. dict_get teacher ''teacher_id'' = Some (PStr (ti_teacher_id inp)))
               teachers
          then (Inl (ValueError ''Teacher ID must be unique.''), w1)
          else
            (case py_int (ti_phone_number inp) of
               None \<Rightarrow> (Inl (ValueError (int_error (ti_phone_number inp))), w1)
             | Some n \<Rightarrow>
                 (case Teacher_init (ti_name inp) (ti_subject inp) (ti_teacher_id inp)
                         (ti_address inp) (ti_email inp) (PInt n) of
                    Inl e \<Rightarrow> (Inl e, w1)
                  | Inr new_teacher \<Rightarrow> (Inr (), Teacher_accept w1 new_teacher file_path))))"

text \<open>\<open>except ValueError as e: print(e)\<close>; any other exception leaves the function.\<close>

definition add_new_teacher_from_user ::
  "world \<Rightarrow> string \<Rightarrow> login \<Rightarrow> teacher_input \<Rightarrow> (error + unit) \<times> world" where
  "add_new_teacher_from_user w file_path lg inp =
     (case add_new_teacher_try w file_path lg inp of
        (Inl (ValueError msg), w') \<Rightarrow> (Inr (), py_print w' msg)
      | r \<Rightarrow> r)"

text \<open>\<open>any(student['roll_number'] == roll_number for student in students)\<close>.\<close>

fun roll_number_taken :: "dict list \<Rightarrow> string \<Rightarrow> error + bool" where
  "roll_number_taken [] roll_number = Inr False"
| "roll_number_taken (student # students) roll_number =
     (case getitem student ''roll_number'' of
        Inl e \<Rightarrow> Inl e
      | Inr r \<Rightarrow> if r = PStr roll_number then Inr True else roll_number_taken students roll_number)"

definition add_new_student_try ::
  "world \<Rightarrow> string \<Rightarrow> string \<Rightarrow> login \<Rightarrow> student_input \<Rightarrow> (error + unit) \<times> world" where
  "add_new_student_try w students_file teachers_file lg inp =
     (case authenticate_teacher (py_print w verify_prompt) teachers_file
             (login_name lg) (login_id lg) of
        (Inl e, w1) \<Rightarrow> (Inl e, w1)
      | (Inr ok, w1) \<Rightarrow>
          if \<not> ok then (Inl (AuthenticationError auth_failed_msg), w1)
          else
            (case si_marks inp of
               Inl msg \<Rightarrow> (Inl (ValueError msg), w1)
             | Inr marks \<Rightarrow>
                 (case roll_number_taken (read_json w1 students_file) (si_roll_number inp) of
                    Inl e \<Rightarrow> (Inl e, w1)
                  | Inr taken \<Rightarrow>
                      if taken then (Inl (ValueError ''Student roll number must be unique.''), w1)
                      else
                        (case py_int (si_phone_number inp) of
                           None \<Rightarrow> (Inl (ValueError (int_error (si_phone_number inp))), w1)
                         | Some n \<Rightarrow>
                             (Inr (),
                              Student_accept w1
                                (Student_init (si_name inp) (si_roll_number inp) (si_email inp)
                                   (PInt n) marks (si_address inp))
                                students_file teachers_file)))))"

text \<open>\<open>except (ValueError, AuthenticationError) as e: print(e)\<close>.\<close>

definition add_new_student_from_user ::
  "world \<Rightarrow> string \<Rightarrow> string \<Rightarrow> login \<Rightarrow> student_input \<Rightarrow> (error + unit) \<times> world" where
  "add_new_student_from_user w students_file teachers_file lg inp =
     (case add_new_student_try w students_file teachers_file lg inp of
        (Inl (ValueError msg), w') \<Rightarrow> (Inr (), py_print w' msg)
      | (Inl (AuthenticationError msg), w') \<Rightarrow> (Inr (), py_print w' msg)
      | r \<Rightarrow> r)"

text \<open>
  \<open>try: X.delete(...); deleted = True  except NoMatchingNameError: pass\<close>: the flag, or
  the exception that leaves the function.
\<close>

definition deleted_flag :: "(error + unit) \<times> world \<Rightarrow> (error + bool) \<times> world" where
  "deleted_flag r =
     (case r of
        (Inr _, w') \<Rightarrow> (Inr True, w')
      | (Inl (NoMatchingNameError msg), w') \<Rightarrow> (Inr False, w')
      | (Inl e, w') \<Rightarrow> (Inl e, w'))"

definition delete_record ::
  "world \<Rightarrow> string \<Rightarrow> string \<Rightarrow> string \<Rightarrow> (error + unit) \<times> world" where
  "delete_record w teachers_file students_file name =
     (case deleted_flag (Teacher_delete w teachers_file name) of
        (Inl e, w1) \<Rightarrow> (Inl e, w1)
      | (Inr teacher_deleted, w1) \<Rightarrow>
          (case deleted_flag (Student_delete w1 students_file name) of
             (Inl e, w2) \<Rightarrow> (Inl e, w2)
           | (Inr student_deleted, w2) \<Rightarrow>
               (Inr (),
                py_print w2
                  (if teacher_deleted \<or> student_deleted
                   then ''Record for '' @ name @ '' deleted successfully.''
                   else ''No matching name found.''))))"

text \<open>
  Reading a run's events: a write is checked when the line the authenticator prints on
  success stands before it. \<open>new_events\<close> are the events a run added.
\<close>

fun checked_writes :: "bool \<Rightarrow> event list \<Rightarrow> bool" where
  "checked_writes ok [] = True"
| "checked_writes ok (Print msg # es) = checked_writes (ok \<or> msg = verified_msg) es"
| "checked_writes ok (Write p # es) = (ok \<and> checked_writes ok es)"

definition new_events :: "world \<Rightarrow> world \<Rightarrow> event list" where
  "new_events w w' = drop (length (events w)) (events w')"

section \<open>Reading stored entries\<close>

text \<open>
  The data model's records, as conditions on a stored entry: the fields a teacher or a
  student entry is read by, and a student's total and pass status as the scoring
  functions compute them.
\<close>

definition has_key :: "string \<Rightarrow> dict \<Rightarrow> bool" where
  "has_key k d = (map_of d k \<noteq> None)"

definition teacher_entry :: "dict \<Rightarrow> bool" where
  "teacher_entry d = (has_key ''name'' d \<and> has_key ''id'' d)"

definition student_entry :: "dict \<Rightarrow> bool" where
  "student_entry d =
     (has_key ''name'' d \<and> (case map_of d ''marks'' of Some (PDict m) \<Rightarrow> True | _ \<Rightarrow> False))"

definition entry_total :: "dict \<Rightarrow> int" where
  "entry_total d = (case marks_values d of Inr marks \<Rightarrow> sum_list marks | Inl e \<Rightarrow> 0)"

definition entry_passes :: "dict \<Rightarrow> bool" where
  "entry_passes d = (case marks_values d of Inr marks \<Rightarrow> all_pass marks | Inl e \<Rightarrow> False)"

definition empty_world :: world where
  "empty_world = \<lparr>files = Map.empty, events = []\<rparr>"

section \<open>Example data\<close>

text \<open>
  Two teacher entries as \<open>Teacher.accept\<close> stores them, and four student entries as
  \<open>Student.accept\<close> stores them: one who fails a subject, two who pass with the same
  total, and one whose marks mapping is empty.
\<close>

definition teacher_asha :: dict where
  "teacher_asha =
     [(''name'', PStr ''Asha''), (''subject'', PStr ''Maths''), (''id'', PStr ''T1''),
      (''address'', PStr ''Pune''), (''email'', PStr ''asha@school.org''),
      (''phone_number'', PInt 9876543210)]"

definition teacher_ravi :: dict where
  "teacher_ravi =
     [(''name'', PStr ''Ravi''), (''subject'', PStr ''Physics''), (''id'', PStr ''T2''),
      (''address'', PStr ''Delhi''), (''email'', PStr ''ravi@school.org''),
      (''phone_number'', PInt 9123456780)]"

definition student_of :: "string \<Rightarrow> string \<Rightarrow> (string \<times> int) list \<Rightarrow> dict" where
  "student_of name roll_number marks =
     [(''name'', PStr name), (''roll_number'', PStr roll_number),
      (''email'', PStr ''pupil@school.org''), (''phone_number'', PInt 9000000000),
      (''marks'', PDict marks), (''address'', PStr ''Pune'')]"

definition example_students :: "dict list" where
  "example_students =
     [student_of ''A'' ''1'' [(''math'', 40), (''sci'', 30)],
      student_of ''B'' ''2'' [(''math'', 90), (''sci'', 85)],
      student_of ''C'' ''3'' [(''math'', 85), (''sci'', 90)],
      student_of ''D'' ''4'' []]"

definition example_world :: world where
  "example_world =
     \<lparr>files = [TEACHERS_FILE \<mapsto> [teacher_asha, teacher_ravi], STUDENTS_FILE \<mapsto> example_students],
      events = []\<rparr>"

definition twins_world :: world where
  "twins_world =
     \<lparr>files = [STUDENTS_FILE \<mapsto>
         [student_of ''A'' ''1'' [(''math'', 40)], student_of ''B'' ''2'' [(''math'', 50)],
          student_of ''A'' ''3'' [(''math'', 60)]]],
      events = []\<rparr>"

definition teacher_ravi_t1 :: dict where
  "teacher_ravi_t1 =
     [(''name'', PStr ''Ravi''), (''subject'', PStr ''Physics''), (''id'', PStr ''T1''),
      (''address'', PStr ''Delhi''), (''email'', PStr ''ravi@school.org''),
      (''phone_number'', PInt 9123456780)]"

text \<open>
  What a user types to add a first teacher to an empty collection, and then, logged in
  as that teacher, a second teacher under the same id.
\<close>

definition first_teacher :: teacher_input where
  "first_teacher =
     \<lparr>ti_name = ''Asha'', ti_subject = ''Maths'', ti_teacher_id = ''T1'',
      ti_address = ''Pune'', ti_email = ''asha@school.org'', ti_phone_number = ''9876543210''\<rparr>"

definition second_teacher :: teacher_input where
  "second_teacher =
     \<lparr>ti_name = ''Ravi'', ti_subject = ''Physics'', ti_teacher_id = ''T1'',
      ti_address = ''Delhi'', ti_email = ''ravi@school.org'', ti_phone_number = ''9123456780''\<rparr>"

definition login_asha :: login where
  "login_asha = \<lparr>login_name = ''Asha'', login_id = ''T1''\<rparr>"

definition new_student :: student_input where
  "new_student =
     \<lparr>si_name = ''E'', si_roll_number = ''5'', si_email = ''e@school.org'',
      si_phone_number = ''9000000005'', si_marks = Inr (PDict [(''math'', 50)]),
      si_address = ''Pune''\<rparr>"

definition after_first_teacher :: world where
  "after_first_teacher =
     snd (add_new_teacher_from_user empty_world TEACHERS_FILE login_asha first_teacher)"

section \<open>Properties of the validation\<close>

declare str_nat.simps [simp del]

subsection \<open>The phone number\<close>

lemma str_nat_nonempty: "str_nat n \<noteq> []"
  by (subst str_nat.simps) simp

lemma length_str_nat_le: "0 < k \<Longrightarrow> (length (str_nat n) \<le> k) = (n < 10 ^ k)"
proof (induction n arbitrary: k rule: str_nat.induct)
  case (1 n)
  show ?case
  proof (cases "n < 10")
    case True
    have "(10::nat) ^ 1 \<le> 10 ^ k" using "1.prems" by (intro power_increasing) auto
    with True "1.prems" show ?thesis by (simp add: str_nat.simps [of n])
  next
    case False
    show ?thesis
    proof (cases "k = 1")
      case True
      with False show ?thesis by (simp add: str_nat.simps [of n] str_nat_nonempty)
    next
      case k: False
      then obtain j where j: "k = Suc j" "0 < j" using "1.prems" by (cases k) auto
      have "(length (str_nat (n div 10)) \<le> j) = (n div 10 < 10 ^ j)"
        using "1.IH" [OF False j(2)] .
      moreover have "(n div 10 < 10 ^ j) = (n < 10 ^ k)"
        using j by (simp add: div_less_iff_less_mult mult.commute)
      ultimately show ?thesis using False j by (simp add: str_nat.simps [of n])
    qed
  qed
qed

lemma length_str_nat_eq: "0 < k \<Longrightarrow> (length (str_nat n) = Suc k) = (10 ^ k \<le> n \<and> n < 10 ^ Suc k)"
  using length_str_nat_le [of k n] length_str_nat_le [of "Suc k" n] by auto

lemma validate_phone_number_accepts:
  "(validate_phone_number p = Inr p) =
     (\<exists>i. p = PInt i \<and> (1000000000 \<le> i \<and> i < 10000000000 \<or> - 1000000000 < i \<and> i \<le> - 100000000))"
proof (cases p)
  case (PInt i)
  have pos: "(length (str_nat (nat i)) = 10) = (1000000000 \<le> nat i \<and> nat i < 10000000000)"
    using length_str_nat_eq [of 9 "nat i"] by simp
  have neg: "(length (str_nat (nat (- i))) = 9) = (100000000 \<le> nat (- i) \<and> nat (- i) < 1000000000)"
    using length_str_nat_eq [of 8 "nat (- i)"] by simp
  show ?thesis
  proof (cases "i < 0")
    case True
    with PInt neg show ?thesis by (auto simp: validate_phone_number_def str_int_def)
  next
    case False
    with PInt pos show ?thesis by (auto simp: validate_phone_number_def str_int_def)
  qed
qed (simp_all add: validate_phone_number_def)

lemma validate_phone_number_examples:
  "validate_phone_number (PInt 1234567890) = Inr (PInt 1234567890)"
  "validate_phone_number (PInt 123) =
     Inl (ValueError ''Phone number must be an integer with 10 digits'')"
  using validate_phone_number_accepts [of "PInt 1234567890"]
    validate_phone_number_accepts [of "PInt 123"]
  by (simp_all add: validate_phone_number_def split: if_splits)

lemma py_int_negative_nine_digits: "py_int ''-123456789'' = Some (- 123456789)"
  by (simp add: py_int_def strip_def is_space_def parse_unsigned_def is_digit_def digit_value_def)

text \<open>
  Claim C2: \<open>validate_phone_number\<close> accepts exactly the integers with 10 decimal
  digits, that is the positive 10-digit integers. The code measures the printed integer,
  and the minus sign is one of its characters: the negative integer -123456789, which
  has 9 digits, is accepted and returned.
\<close>

theorem validate_phone_number_negative_nine_digits:
  "validate_phone_number (PInt (- 123456789)) = Inr (PInt (- 123456789))"
  by (simp add: validate_phone_number_accepts)

subsection \<open>The email address\<close>

lemma plus_match:
  "u \<noteq> [] \<Longrightarrow> list_all (atom_ok a) u \<Longrightarrow> prefix_match p rest \<Longrightarrow>
   prefix_match ((a, Plus) # p) (u @ rest)"
proof (induction u)
  case Nil
  then show ?case by simp
next
  case (Cons c u)
  show ?case
  proof (cases "u = []")
    case True
    with Cons.prems show ?thesis by simp
  next
    case False
    with Cons show ?thesis by simp
  qed
qed

lemma plus_match_split:
  "prefix_match ((a, Plus) # p) s \<Longrightarrow>
   \<exists>u rest. s = u @ rest \<and> u \<noteq> [] \<and> list_all (atom_ok a) u \<and> prefix_match p rest"
proof (induction s)
  case Nil
  then show ?case by simp
next
  case (Cons c s)
  from Cons.prems have c: "atom_ok a c"
    and alt: "prefix_match ((a, Plus) # p) s \<or> prefix_match p s" by simp_all
  from alt show ?case
  proof
    assume "prefix_match ((a, Plus) # p) s"
    then obtain u rest where "s = u @ rest" "list_all (atom_ok a) u" "prefix_match p rest"
      using Cons.IH by blast
    with c have "c # s = (c # u) @ rest \<and> c # u \<noteq> [] \<and> list_all (atom_ok a) (c # u) \<and>
        prefix_match p rest" by simp
    then show ?thesis by blast
  next
    assume "prefix_match p s"
    with c have "c # s = [c] @ s \<and> [c] \<noteq> [] \<and> list_all (atom_ok a) [c] \<and> prefix_match p s"
      by simp
    then show ?thesis by blast
  qed
qed

lemma once_match: "prefix_match ((Lit a, Once) # p) s = (\<exists>rest. s = a # rest \<and> prefix_match p rest)"
  by (cases s) auto

lemma not_at: "list_all (atom_ok (NotLit c)) u = (c \<notin> set u)"
  by (induction u) auto

lemma email_shape_accepted: "email_shape s \<Longrightarrow> validate_email s = Inr s"
proof -
  assume "email_shape s"
  then obtain u v w where s: "s = u @ ''@'' @ v @ ''.'' @ w"
    and ne: "u \<noteq> []" "v \<noteq> []" "w \<noteq> []"
    and no: "CHR ''@'' \<notin> set u" "CHR ''@'' \<notin> set v" "CHR ''@'' \<notin> set w"
    unfolding email_shape_def by blast
  have "prefix_match [(NotLit CHR ''@'', Plus)] (w @ [])"
    using ne no by (intro plus_match) (simp_all add: not_at)
  then have "prefix_match [(Lit CHR ''.'', Once), (NotLit CHR ''@'', Plus)] (''.'' @ w)"
    by simp
  then have "prefix_match [(NotLit CHR ''@'', Plus), (Lit CHR ''.'', Once), (NotLit CHR ''@'', Plus)]
      (v @ ''.'' @ w)"
    using ne no by (intro plus_match) (simp_all add: not_at)
  then have "prefix_match (tl email_pattern) (''@'' @ v @ ''.'' @ w)"
    by (simp add: email_pattern_def)
  then have "prefix_match email_pattern (u @ ''@'' @ v @ ''.'' @ w)"
    unfolding email_pattern_def using ne no by (intro plus_match) (simp_all add: not_at)
  then show ?thesis by (simp add: validate_email_def re_match_def s)
qed

lemma accepted_has_shaped_prefix:
  assumes "validate_email s = Inr s"
  shows "\<exists>pre rest. s = pre @ rest \<and> email_shape pre"
proof -
  let ?n = "(NotLit CHR ''@'', Plus)"
  from assms have "prefix_match [?n, (Lit CHR ''@'', Once), ?n, (Lit CHR ''.'', Once), ?n] s"
    by (simp add: validate_email_def re_match_def email_pattern_def split: if_splits)
  from plus_match_split [OF this] obtain u r1 where 1: "s = u @ r1" "u \<noteq> []" "CHR ''@'' \<notin> set u"
    and m1: "prefix_match [(Lit CHR ''@'', Once), ?n, (Lit CHR ''.'', Once), ?n] r1"
    by (auto simp: not_at)
  from m1 obtain r2 where 2: "r1 = CHR ''@'' # r2"
    and m2: "prefix_match [?n, (Lit CHR ''.'', Once), ?n] r2"
    by (auto simp: once_match)
  from plus_match_split [OF m2] obtain v r3 where 3: "r2 = v @ r3" "v \<noteq> []" "CHR ''@'' \<notin> set v"
    and m3: "prefix_match [(Lit CHR ''.'', Once), ?n] r3"
    by (auto simp: not_at)
  from m3 obtain r4 where 4: "r3 = CHR ''.'' # r4" and m4: "prefix_match [?n] r4"
    by (auto simp: once_match)
  from plus_match_split [OF m4] obtain w r5 where 5: "r4 = w @ r5" "w \<noteq> []" "CHR ''@'' \<notin> set w"
    by (auto simp: not_at)
  have "email_shape (u @ ''@'' @ v @ ''.'' @ w)"
    unfolding email_shape_def using 1 3 5 by blast
  moreover have "s = (u @ ''@'' @ v @ ''.'' @ w) @ r5"
    using 1 2 3 4 5 by simp
  ultimately show ?thesis by blast
qed

lemma email_shape_one_at: "email_shape s \<Longrightarrow> count_list s CHR ''@'' = 1"
  by (auto simp: email_shape_def count_list_0_iff)

lemma prefix_match_extend: "prefix_match p s \<Longrightarrow> prefix_match p (s @ t)"
  by (induction p s rule: prefix_match.induct) auto

lemma validate_email_accepts:
  "(validate_email s = Inr s) = (\<exists>pre rest. s = pre @ rest \<and> email_shape pre)"
proof
  assume "validate_email s = Inr s"
  then show "\<exists>pre rest. s = pre @ rest \<and> email_shape pre"
    by (rule accepted_has_shaped_prefix)
next
  assume "\<exists>pre rest. s = pre @ rest \<and> email_shape pre"
  then obtain pre rest where s: "s = pre @ rest" and "email_shape pre" by blast
  then have "validate_email pre = Inr pre" by (simp add: email_shape_accepted)
  then have "prefix_match email_pattern pre"
    by (simp add: validate_email_def re_match_def split: if_splits)
  then have "prefix_match email_pattern (pre @ rest)" by (rule prefix_match_extend)
  with s show "validate_email s = Inr s" by (simp add: validate_email_def re_match_def)
qed

text \<open>
  Claim C3: \<open>validate_email\<close> accepts a string iff the whole string has the shape
  non-@s, @, non-@s, dot, non-@s. The code matches the pattern at the start of the string
  only, so what follows a matching prefix is not looked at: \<open>a@b.c@d\<close>, which has a
  second @ and so not the shape, is accepted and returned.
\<close>

theorem validate_email_accepts_second_at:
  "validate_email ''a@b.c@d'' = Inr ''a@b.c@d'' \<and> \<not> email_shape ''a@b.c@d''"
proof
  show "validate_email ''a@b.c@d'' = Inr ''a@b.c@d''"
    by (simp add: validate_email_def re_match_def email_pattern_def)
  show "\<not> email_shape ''a@b.c@d''"
    using email_shape_one_at [of "''a@b.c@d''"] by auto
qed

section \<open>Properties of the stored collections\<close>

lemmas example_defs = example_world_def example_students_def student_of_def teacher_asha_def
  teacher_ravi_def twins_world_def TEACHERS_FILE_def STUDENTS_FILE_def

subsection \<open>The authenticator\<close>

lemma getitem_has_key: "has_key k d \<Longrightarrow> \<exists>v. getitem d k = Inr v \<and> map_of d k = Some v"
  by (auto simp: has_key_def getitem_def)

lemma auth_loop_result:
  "list_all teacher_entry data \<Longrightarrow>
   auth_loop data name teacher_id =
     (if list_ex (\<lambda>entry. map_of entry ''name'' = Some (PStr name) \<and>
                           map_of entry ''id'' = Some (PStr teacher_id)) data
      then Inr True else Inl (AuthenticationError ''Invalid teacher credentials''))"
proof (induction data)
  case Nil
  then show ?case by simp
next
  case (Cons entry data)
  from Cons.prems obtain n i where n: "getitem entry ''name'' = Inr n" "map_of entry ''name'' = Some n"
    and i: "getitem entry ''id'' = Inr i" "map_of entry ''id'' = Some i"
    using getitem_has_key [of "''name''" entry] getitem_has_key [of "''id''" entry]
    by (auto simp: teacher_entry_def)
  with Cons show ?case by simp
qed

text \<open>
  Claim C6: over a teacher collection (every entry has a name and an id),
  \<open>authenticate_teacher\<close> returns True iff some stored entry has its name equal to
  the claimed name and its id equal to the claimed id, both as strings; when there is
  none it raises AuthenticationError.
\<close>

theorem authenticate_teacher_iff:
  assumes "\<forall>entry \<in> set (read_json w teachers_file). teacher_entry entry"
  shows "fst (authenticate_teacher w teachers_file name teacher_id) =
     (if \<exists>entry \<in> set (read_json w teachers_file).
           map_of entry ''name'' = Some (PStr name) \<and> map_of entry ''id'' = Some (PStr teacher_id)
      then Inr True else Inl (AuthenticationError ''Invalid teacher credentials''))"
proof -
  from assms have "list_all teacher_entry (read_json w teachers_file)"
    by (simp add: list_all_iff)
  from auth_loop_result [OF this, of name teacher_id] show ?thesis
    by (simp add: authenticate_teacher_def list_ex_iff split: sum.splits)
qed

theorem authenticate_teacher_iff_witness:
  "list_all teacher_entry (read_json example_world TEACHERS_FILE) \<and>
   fst (authenticate_teacher example_world TEACHERS_FILE ''Asha'' ''T1'') = Inr True \<and>
   fst (authenticate_teacher example_world TEACHERS_FILE ''Asha'' ''T2'') =
     Inl (AuthenticationError ''Invalid teacher credentials'')"
proof -
  have data: "read_json example_world TEACHERS_FILE = [teacher_asha, teacher_ravi]"
    by (simp add: example_world_def read_json_def TEACHERS_FILE_def STUDENTS_FILE_def)
  have h: "\<forall>entry \<in> set (read_json example_world TEACHERS_FILE). teacher_entry entry"
    by (simp add: data teacher_entry_def has_key_def teacher_asha_def teacher_ravi_def)
  from authenticate_teacher_iff [OF h, of "''Asha''" "''T1''"]
    authenticate_teacher_iff [OF h, of "''Asha''" "''T2''"] h
  show ?thesis
    by (simp add: data list_all_iff teacher_asha_def teacher_ravi_def)
qed

subsection \<open>Deleting and searching by name\<close>

lemma search_loop_without_name:
  "without_name data name = Inr new_data \<Longrightarrow>
   search_loop new_data name = Inl (NoMatchingNameError ''No matching name found'')"
proof (induction data arbitrary: new_data)
  case Nil
  then show ?case by simp
next
  case (Cons entry data)
  then show ?case by (auto split: sum.splits if_splits)
qed

lemma without_name_filter:
  "list_all (has_key ''name'') data \<Longrightarrow>
   without_name data name = Inr (filter (\<lambda>entry. map_of entry ''name'' \<noteq> Some (PStr name)) data)"
proof (induction data)
  case Nil
  then show ?case by simp
next
  case (Cons entry data)
  from Cons.prems obtain n where "getitem entry ''name'' = Inr n" "map_of entry ''name'' = Some n"
    using getitem_has_key [of "''name''" entry] by auto
  with Cons show ?case by simp
qed

lemma read_write_json: "read_json (write_json w file_path data) file_path = data"
  by (simp add: read_json_def write_json_def)

text \<open>
  Claim C5: over a collection whose entries all have a name, \<open>Student.delete\<close> writes
  back the entries whose name differs from the given one, so all entries of that name
  are gone, duplicates included, and \<open>Student.search\<close> for the same name then raises
  NoMatchingNameError.
\<close>

theorem delete_then_search:
  assumes "\<forall>entry \<in> set (read_json w file_path). has_key ''name'' entry"
  shows "fst (Student_delete w file_path name) = Inr () \<and>
    read_json (snd (Student_delete w file_path name)) file_path =
      filter (\<lambda>entry. map_of entry ''name'' \<noteq> Some (PStr name)) (read_json w file_path) \<and>
    events (snd (Student_delete w file_path name)) = events w @ [Write file_path] \<and>
    Student_search (snd (Student_delete w file_path name)) file_path name =
      Inl (NoMatchingNameError ''No matching name found'')"
proof -
  from assms have "list_all (has_key ''name'') (read_json w file_path)"
    by (simp add: list_all_iff)
  from without_name_filter [OF this, of name]
  have wn: "without_name (read_json w file_path) name =
      Inr (filter (\<lambda>entry. map_of entry ''name'' \<noteq> Some (PStr name)) (read_json w file_path))" .
  then have del: "Student_delete w file_path name =
      (Inr (), write_json w file_path
         (filter (\<lambda>entry. map_of entry ''name'' \<noteq> Some (PStr name)) (read_json w file_path)))"
    by (simp add: Student_delete_def)
  show ?thesis
    using search_loop_without_name [OF wn]
    by (simp add: del read_write_json Student_search_def) (simp add: write_json_def)
qed

theorem delete_then_search_witness:
  "list_all (has_key ''name'') (read_json twins_world STUDENTS_FILE) \<and>
   read_json (snd (Student_delete twins_world STUDENTS_FILE ''A'')) STUDENTS_FILE =
     [student_of ''B'' ''2'' [(''math'', 50)]] \<and>
   Student_search (snd (Student_delete twins_world STUDENTS_FILE ''A'')) STUDENTS_FILE ''A'' =
     Inl (NoMatchingNameError ''No matching name found'')"
proof -
  have data: "read_json twins_world STUDENTS_FILE =
      [student_of ''A'' ''1'' [(''math'', 40)], student_of ''B'' ''2'' [(''math'', 50)],
       student_of ''A'' ''3'' [(''math'', 60)]]"
    by (simp add: twins_world_def read_json_def)
  have h: "\<forall>entry \<in> set (read_json twins_world STUDENTS_FILE). has_key ''name'' entry"
    by (simp add: data has_key_def student_of_def)
  from delete_then_search [OF h, of "''A''"] h show ?thesis
    by (simp add: data list_all_iff student_of_def)
qed

lemma teacher_delete_then_search:
  assumes "\<forall>entry \<in> set (read_json w file_path). has_key ''name'' entry"
  shows "Teacher_search (snd (Teacher_delete w file_path name)) file_path name =
      Inl (NoMatchingNameError ''No matching name found'')"
proof -
  from assms have "list_all (has_key ''name'') (read_json w file_path)"
    by (simp add: list_all_iff)
  from without_name_filter [OF this, of name] show ?thesis
    using search_loop_without_name [of "read_json w file_path" name]
    by (simp add: Teacher_delete_def Teacher_search_def read_write_json)
qed

section \<open>Properties of the scoring engine\<close>

subsection \<open>The percentage\<close>

lemma calculate_percentage_dash:
  "(calculate_percentage fl marks = Inr Dash) = (\<exists>mark \<in> set (map snd marks). mark < 32)"
  by (simp add: calculate_percentage_def Let_def list_ex_iff)

lemma calculate_percentage_number:
  assumes "marks \<noteq> []" and "\<not> (\<exists>mark \<in> set (map snd marks). mark < 32)"
  shows "calculate_percentage fl marks =
     Inr (Number (round_to fl
       (times_int fl (truediv fl (sum_list (map snd marks)) (int (length marks) * 100)) 100) 3))"
  using assms by (simp add: calculate_percentage_def Let_def list_ex_iff)

text \<open>
  Claim C9: the division of \<open>calculate_percentage\<close> has no guard for an empty marks
  mapping. There no mark is below 32, so the function goes on to divide by
  \<open>len(marks) * 100 = 0\<close> and raises ZeroDivisionError; a non-empty mapping never
  raises it.
\<close>

theorem calculate_percentage_zero_division:
  "(calculate_percentage fl marks = Inl ZeroDivisionError) = (marks = [])"
  by (auto simp: calculate_percentage_def Let_def)

text \<open>
  Claim C7: for every marks mapping \<open>calculate_percentage\<close> returns the placeholder
  iff some mark is below 32, and the rounded percentage otherwise. For the empty mapping
  it returns neither: it raises ZeroDivisionError, and so does
  \<open>calculate_percentage_for_all\<close> over a collection that holds a student with no marks.
\<close>

theorem calculate_percentage_empty_marks:
  "calculate_percentage fl [] = Inl ZeroDivisionError \<and>
   calculate_percentage_for_all fl example_world STUDENTS_FILE = Inl ZeroDivisionError"
  by (simp add: calculate_percentage_def calculate_percentage_for_all_def example_world_def
      example_students_def student_of_def read_json_def getitem_def
      TEACHERS_FILE_def STUDENTS_FILE_def)

subsection \<open>Passing students, totals and ranks\<close>

lemma student_entry_marks:
  "student_entry d \<Longrightarrow>
   \<exists>m. getitem d ''marks'' = Inr (PDict m) \<and> marks_values d = Inr (map snd m)"
  by (auto simp: student_entry_def marks_values_def getitem_def split: option.splits pyval.splits)

lemma student_entry_values:
  "student_entry d \<Longrightarrow>
   \<exists>marks. marks_values d = Inr marks \<and> entry_total d = sum_list marks \<and>
     entry_passes d = all_pass marks"
  using student_entry_marks [of d] by (auto simp: entry_total_def entry_passes_def)

lemma passed_students_filter:
  "list_all student_entry data \<Longrightarrow> passed_students data = Inr (filter entry_passes data)"
proof (induction data)
  case Nil
  then show ?case by simp
next
  case (Cons entry data)
  from Cons.prems obtain marks where "marks_values entry = Inr marks"
    "entry_passes entry = all_pass marks"
    using student_entry_values [of entry] by auto
  with Cons show ?case by simp
qed

lemma total_marks_map:
  "list_all student_entry data \<Longrightarrow> total_marks data = Inr (map entry_total data)"
proof (induction data)
  case Nil
  then show ?case by simp
next
  case (Cons entry data)
  from Cons.prems obtain marks where "marks_values entry = Inr marks"
    "entry_total entry = sum_list marks"
    using student_entry_values [of entry] by auto
  with Cons show ?case by simp
qed

lemma insort_key_map:
  "insort_key h (t x) (map t ys) = map t (insort_key (\<lambda>y. h (t y)) x ys)"
  by (induction ys) simp_all

lemma sort_key_map: "sort_key h (map t xs) = map t (sort_key (\<lambda>y. h (t y)) xs)"
  by (induction xs) (simp_all add: insort_key_map)

lemma sorted_by_total_desc_sort:
  assumes "list_all student_entry passed"
  shows "sorted_by_total_desc passed = Inr (sort_key (\<lambda>entry. - entry_total entry) passed)"
proof -
  have "zip (map entry_total passed) passed = map (\<lambda>entry. (entry_total entry, entry)) passed"
    by (induction passed) simp_all
  then have "map snd (sort_key (\<lambda>(k, entry). - k) (zip (map entry_total passed) passed)) =
      sort_key (\<lambda>entry. - entry_total entry) passed"
    by (simp add: sort_key_map comp_def)
  with total_marks_map [OF assms] show ?thesis
    by (simp add: sorted_by_total_desc_def)
qed

lemma rank_loop_positions:
  "list_all (has_key ''name'') xs \<Longrightarrow>
   \<exists>ranks. rank_loop index xs = Inr ranks \<and> length ranks = length xs \<and>
     (\<forall>k < length xs. getitem (xs ! k) ''name'' = Inr (fst (ranks ! k)) \<and>
        snd (ranks ! k) = index + k + 1)"
proof (induction xs arbitrary: index)
  case Nil
  then show ?case by simp
next
  case (Cons entry xs)
  from Cons.prems obtain n where n: "getitem entry ''name'' = Inr n"
    using getitem_has_key [of "''name''" entry] by auto
  from Cons.prems have "list_all (has_key ''name'') xs" by simp
  from Cons.IH [OF this, of "index + 1"] obtain ranks
    where r: "rank_loop (index + 1) xs = Inr ranks" "length ranks = length xs"
      and pos: "\<forall>k < length xs. getitem (xs ! k) ''name'' = Inr (fst (ranks ! k)) \<and>
        snd (ranks ! k) = index + 1 + k + 1"
    by blast
  have "\<forall>k < length (entry # xs). getitem ((entry # xs) ! k) ''name'' = Inr (fst (((n, index + 1) # ranks) ! k)) \<and>
        snd (((n, index + 1) # ranks) ! k) = index + k + 1"
  proof (intro allI impI)
    fix k assume "k < length (entry # xs)"
    then show "getitem ((entry # xs) ! k) ''name'' = Inr (fst (((n, index + 1) # ranks) ! k)) \<and>
        snd (((n, index + 1) # ranks) ! k) = index + k + 1"
      using n pos by (cases k) auto
  qed
  with n r show ?case by simp
qed

lemma sorted_desc: "sorted_wrt (\<lambda>a b. entry_total b \<le> entry_total a) (sort_key (\<lambda>entry. - entry_total entry) xs)"
proof -
  have "sorted (map (\<lambda>entry. - entry_total entry) (sort_key (\<lambda>entry. - entry_total entry) xs))"
    by (rule sorted_sort_key)
  then show ?thesis by (simp add: sorted_map)
qed

lemma calculate_rank_run:
  assumes "\<forall>entry \<in> set (read_json w file_path). student_entry entry"
  shows "\<exists>sorted_data ranks.
    calculate_rank w file_path = Inr ranks \<and>
    mset sorted_data = mset (filter entry_passes (read_json w file_path)) \<and>
    sorted_wrt (\<lambda>a b. entry_total b \<le> entry_total a) sorted_data \<and>
    (\<forall>t. filter (\<lambda>entry. entry_total entry = t) sorted_data =
         filter (\<lambda>entry. entry_total entry = t) (filter entry_passes (read_json w file_path))) \<and>
    length ranks = length sorted_data \<and>
    (\<forall>k < length sorted_data.
       getitem (sorted_data ! k) ''name'' = Inr (fst (ranks ! k)) \<and> snd (ranks ! k) = k + 1)"
proof -
  let ?data = "read_json w file_path"
  let ?passed = "filter entry_passes ?data"
  let ?sorted = "sort_key (\<lambda>entry. - entry_total entry) ?passed"
  from assms have wf: "list_all student_entry ?data" by (simp add: list_all_iff)
  then have wfp: "list_all student_entry ?passed" by (simp add: list_all_iff)
  then have "list_all (has_key ''name'') ?sorted"
    by (simp add: list_all_iff student_entry_def)
  from rank_loop_positions [OF this, of 0] obtain ranks
    where r: "rank_loop 0 ?sorted = Inr ranks" "length ranks = length ?sorted"
      and pos: "\<forall>k < length ?sorted. getitem (?sorted ! k) ''name'' = Inr (fst (ranks ! k)) \<and>
        snd (ranks ! k) = k + 1"
    by auto
  have run: "calculate_rank w file_path = Inr ranks"
    by (simp add: calculate_rank_def passed_students_filter [OF wf]
        sorted_by_total_desc_sort [OF wfp] r)
  have stable: "\<forall>t. filter (\<lambda>entry. entry_total entry = t) ?sorted =
      filter (\<lambda>entry. entry_total entry = t) ?passed"
  proof
    fix t
    have "filter (\<lambda>entry. - entry_total entry = - t) ?sorted =
        filter (\<lambda>entry. - entry_total entry = - t) ?passed"
      by (rule sort_key_stable)
    then show "filter (\<lambda>entry. entry_total entry = t) ?sorted =
        filter (\<lambda>entry. entry_total entry = t) ?passed" by simp
  qed
  have "mset ?sorted = mset ?passed" by simp
  with run sorted_desc [of ?passed] stable r(2) pos show ?thesis by blast
qed


lemma sorted_desc_between:
  assumes "sorted_wrt (\<lambda>a b. entry_total b \<le> entry_total a) xs"
    and "i \<le> k" "k \<le> j" "j < length xs"
    and "entry_total (xs ! i) = entry_total (xs ! j)"
  shows "entry_total (xs ! k) = entry_total (xs ! i)"
proof -
  have "entry_total (xs ! k) \<le> entry_total (xs ! i)"
  proof (cases "i = k")
    case False
    with assms have "i < k" "k < length xs" by simp_all
    with assms(1) show ?thesis by (simp add: sorted_wrt_iff_nth_less)
  qed simp
  moreover have "entry_total (xs ! j) \<le> entry_total (xs ! k)"
  proof (cases "k = j")
    case False
    with assms have "k < j" "j < length xs" by simp_all
    with assms(1) show ?thesis by (simp add: sorted_wrt_iff_nth_less)
  qed simp
  ultimately show ?thesis using assms(5) by simp
qed

text \<open>
  Claim C8: over a student collection (every entry has a name and a marks mapping),
  \<open>calculate_rank\<close> keeps the passing students (every mark at least 32), sorts them
  by total marks in descending order, students of equal total staying in stored order,
  and pairs the name at each position with that position counted from 1. Students with
  equal totals stand next to each other, so they get distinct consecutive ranks, never a
  shared one.
\<close>

theorem calculate_rank_positions:
  assumes "\<forall>entry \<in> set (read_json w file_path). student_entry entry"
  shows "\<exists>sorted_data ranks.
    calculate_rank w file_path = Inr ranks \<and>
    mset sorted_data = mset (filter entry_passes (read_json w file_path)) \<and>
    sorted_wrt (\<lambda>a b. entry_total b \<le> entry_total a) sorted_data \<and>
    (\<forall>t. filter (\<lambda>entry. entry_total entry = t) sorted_data =
         filter (\<lambda>entry. entry_total entry = t) (filter entry_passes (read_json w file_path))) \<and>
    length ranks = length sorted_data \<and>
    (\<forall>k < length sorted_data.
       getitem (sorted_data ! k) ''name'' = Inr (fst (ranks ! k)) \<and> snd (ranks ! k) = k + 1) \<and>
    (\<forall>i k j. i \<le> k \<and> k \<le> j \<and> j < length sorted_data \<and>
       entry_total (sorted_data ! i) = entry_total (sorted_data ! j) \<longrightarrow>
       entry_total (sorted_data ! k) = entry_total (sorted_data ! i))"
proof -
  from calculate_rank_run [OF assms] obtain sorted_data ranks
    where run: "calculate_rank w file_path = Inr ranks \<and>
      mset sorted_data = mset (filter entry_passes (read_json w file_path)) \<and>
      sorted_wrt (\<lambda>a b. entry_total b \<le> entry_total a) sorted_data \<and>
      (\<forall>t. filter (\<lambda>entry. entry_total entry = t) sorted_data =
         filter (\<lambda>entry. entry_total entry = t) (filter entry_passes (read_json w file_path))) \<and>
      length ranks = length sorted_data \<and>
      (\<forall>k < length sorted_data.
         getitem (sorted_data ! k) ''name'' = Inr (fst (ranks ! k)) \<and> snd (ranks ! k) = k + 1)"
    by blast
  then have "sorted_wrt (\<lambda>a b. entry_total b \<le> entry_total a) sorted_data" by simp
  then have "\<forall>i k j. i \<le> k \<and> k \<le> j \<and> j < length sorted_data \<and>
       entry_total (sorted_data ! i) = entry_total (sorted_data ! j) \<longrightarrow>
       entry_total (sorted_data ! k) = entry_total (sorted_data ! i)"
    using sorted_desc_between by blast
  with run show ?thesis by blast
qed

theorem calculate_rank_positions_witness:
  "list_all student_entry (read_json example_world STUDENTS_FILE) \<and>
   calculate_rank example_world STUDENTS_FILE =
     Inr [(PStr ''B'', 1), (PStr ''C'', 2), (PStr ''D'', 3)] \<and>
   (\<exists>sorted_data ranks.
    calculate_rank example_world STUDENTS_FILE = Inr ranks \<and>
    mset sorted_data = mset (filter entry_passes (read_json example_world STUDENTS_FILE)) \<and>
    sorted_wrt (\<lambda>a b. entry_total b \<le> entry_total a) sorted_data \<and>
    length ranks = length sorted_data)"
proof -
  have data: "read_json example_world STUDENTS_FILE = example_students"
    by (simp add: example_world_def read_json_def TEACHERS_FILE_def STUDENTS_FILE_def)
  have h: "\<forall>entry \<in> set (read_json example_world STUDENTS_FILE). student_entry entry"
    by (simp add: data example_students_def student_of_def student_entry_def has_key_def)
  have run: "calculate_rank example_world STUDENTS_FILE =
      Inr [(PStr ''B'', 1), (PStr ''C'', 2), (PStr ''D'', 3)]"
    by (simp add: calculate_rank_def data example_students_def student_of_def marks_values_def
        getitem_def all_pass_def sorted_by_total_desc_def)
  from calculate_rank_positions [OF h] have "\<exists>sorted_data ranks.
    calculate_rank example_world STUDENTS_FILE = Inr ranks \<and>
    mset sorted_data = mset (filter entry_passes (read_json example_world STUDENTS_FILE)) \<and>
    sorted_wrt (\<lambda>a b. entry_total b \<le> entry_total a) sorted_data \<and>
    length ranks = length sorted_data" by blast
  with h run show ?thesis by (simp only: list_all_iff simp_thms)
qed

lemma pass_fail_loop_map:
  "list_all student_entry data \<Longrightarrow>
   pass_fail_loop data =
     Inr (map (\<lambda>entry. [(''name'', the (map_of entry ''name'')),
                          (''marks'', the (map_of entry ''marks''))])
            (filter entry_passes data))"
proof (induction data)
  case Nil
  then show ?case by simp
next
  case (Cons entry data)
  from Cons.prems obtain marks where m: "marks_values entry = Inr marks"
    "entry_passes entry = all_pass marks"
    using student_entry_values [of entry] by auto
  from Cons.prems obtain n where n: "getitem entry ''name'' = Inr n" "map_of entry ''name'' = Some n"
    using getitem_has_key [of "''name''" entry] by (auto simp: student_entry_def)
  from Cons.prems obtain mk where mk: "getitem entry ''marks'' = Inr mk" "map_of entry ''marks'' = Some mk"
    using student_entry_marks [of entry] by (auto simp: getitem_def split: option.splits)
  from Cons m n mk show ?case by simp
qed

lemma py_max_Max: "xs \<noteq> [] \<Longrightarrow> py_max xs = Max (set xs)"
  by (cases xs) (simp_all add: py_max_def Max.set_eq_fold [symmetric])

lemma py_min_Min: "xs \<noteq> [] \<Longrightarrow> py_min xs = Min (set xs)"
  by (cases xs) (simp_all add: py_min_def Min.set_eq_fold [symmetric])

text \<open>
  Claim C10: a student whose marks mapping is empty passes (every mark is at least 32,
  vacuously) with a total of 0, and so is among the students \<open>pass_fail_determination\<close>
  returns, counts with total 0 in \<open>highest_and_lowest_scores\<close>, and gets a rank from
  \<open>calculate_rank\<close>.
\<close>

theorem empty_marks_pass:
  assumes wf: "\<forall>entry \<in> set (read_json w file_path). student_entry entry"
    and mem: "entry \<in> set (read_json w file_path)"
    and marks: "map_of entry ''marks'' = Some (PDict [])"
    and name: "map_of entry ''name'' = Some n"
  shows "entry_passes entry \<and> entry_total entry = 0 \<and>
    (\<exists>pass_students. pass_fail_determination w file_path = Inr pass_students \<and>
       [(''name'', n), (''marks'', PDict [])] \<in> set pass_students) \<and>
    (\<exists>highest lowest. highest_and_lowest_scores w file_path = Inr (Number highest, Number lowest) \<and>
       lowest \<le> 0 \<and> 0 \<le> highest) \<and>
    (\<exists>ranks r. calculate_rank w file_path = Inr ranks \<and> (n, r) \<in> set ranks)"
proof -
  let ?data = "read_json w file_path"
  let ?passed = "filter entry_passes ?data"
  from wf have wfl: "list_all student_entry ?data" by (simp add: list_all_iff)
  then have wfp: "list_all student_entry ?passed" by (simp add: list_all_iff)
  have mv: "marks_values entry = Inr []"
    using marks by (simp add: marks_values_def getitem_def)
  then have pass: "entry_passes entry" and total: "entry_total entry = 0"
    by (simp_all add: entry_passes_def entry_total_def all_pass_def)
  from mem pass have inp: "entry \<in> set ?passed" by simp
  have pf: "\<exists>pass_students. pass_fail_determination w file_path = Inr pass_students \<and>
       [(''name'', n), (''marks'', PDict [])] \<in> set pass_students"
  proof -
    have "[(''name'', n), (''marks'', PDict [])] =
        (\<lambda>entry. [(''name'', the (map_of entry ''name'')),
                    (''marks'', the (map_of entry ''marks''))]) entry"
      using marks name by simp
    with inp have "[(''name'', n), (''marks'', PDict [])] \<in>
        set (map (\<lambda>entry. [(''name'', the (map_of entry ''name'')),
                    (''marks'', the (map_of entry ''marks''))]) ?passed)"
      by (metis (no_types, lifting) image_eqI set_map)
    then show ?thesis
      by (simp add: pass_fail_determination_def pass_fail_loop_map [OF wfl])
  qed
  have hl: "\<exists>highest lowest. highest_and_lowest_scores w file_path = Inr (Number highest, Number lowest) \<and>
       lowest \<le> 0 \<and> 0 \<le> highest"
  proof -
    let ?totals = "map entry_total ?passed"
    from inp total have z: "0 \<in> set ?totals" by force
    from inp have ne: "?totals \<noteq> []" by (cases ?passed) simp_all
    have "Min (set ?totals) \<le> 0" "0 \<le> Max (set ?totals)"
      using z by (simp_all add: Min_le del: set_map)
    with ne show ?thesis
      by (simp add: highest_and_lowest_scores_def passed_students_filter [OF wfl]
          total_marks_map [OF wfp] py_max_Max py_min_Min del: set_map)
  qed
  have rk: "\<exists>ranks r. calculate_rank w file_path = Inr ranks \<and> (n, r) \<in> set ranks"
  proof -
    from calculate_rank_run [OF wf] obtain sorted_data ranks
      where run: "calculate_rank w file_path = Inr ranks"
        and ms: "mset sorted_data = mset ?passed"
        and len: "length ranks = length sorted_data"
        and pos: "\<forall>k < length sorted_data.
           getitem (sorted_data ! k) ''name'' = Inr (fst (ranks ! k)) \<and> snd (ranks ! k) = k + 1"
      by blast
    from ms inp have "entry \<in> set sorted_data" by (metis mset_eq_setD)
    then obtain k where k: "k < length sorted_data" "sorted_data ! k = entry"
      by (auto simp: in_set_conv_nth)
    with pos name have "fst (ranks ! k) = n" by (auto simp: getitem_def)
    then have "(n, snd (ranks ! k)) = ranks ! k" by (metis prod.collapse)
    with k len have "(n, snd (ranks ! k)) \<in> set ranks" by (metis nth_mem)
    with run show ?thesis by blast
  qed
  from pass total pf hl rk show ?thesis by blast
qed

theorem empty_marks_pass_witness:
  "list_all student_entry (read_json example_world STUDENTS_FILE) \<and>
   pass_fail_determination example_world STUDENTS_FILE = Inr
     [[(''name'', PStr ''B''), (''marks'', PDict [(''math'', 90), (''sci'', 85)])],
      [(''name'', PStr ''C''), (''marks'', PDict [(''math'', 85), (''sci'', 90)])],
      [(''name'', PStr ''D''), (''marks'', PDict [])]] \<and>
   highest_and_lowest_scores example_world STUDENTS_FILE = Inr (Number 175, Number 0) \<and>
   calculate_rank example_world STUDENTS_FILE =
     Inr [(PStr ''B'', 1), (PStr ''C'', 2), (PStr ''D'', 3)] \<and>
   entry_passes (student_of ''D'' ''4'' []) \<and> entry_total (student_of ''D'' ''4'' []) = 0"
proof -
  have data: "read_json example_world STUDENTS_FILE = example_students"
    by (simp add: example_world_def read_json_def TEACHERS_FILE_def STUDENTS_FILE_def)
  have h: "\<forall>entry \<in> set (read_json example_world STUDENTS_FILE). student_entry entry"
    by (simp add: data example_students_def student_of_def student_entry_def has_key_def)
  have mem: "student_of ''D'' ''4'' [] \<in> set (read_json example_world STUDENTS_FILE)"
    by (simp add: data example_students_def)
  have marks: "map_of (student_of ''D'' ''4'' []) ''marks'' = Some (PDict [])"
    and name: "map_of (student_of ''D'' ''4'' []) ''name'' = Some (PStr ''D'')"
    by (simp_all add: student_of_def)
  have pf: "pass_fail_determination example_world STUDENTS_FILE = Inr
     [[(''name'', PStr ''B''), (''marks'', PDict [(''math'', 90), (''sci'', 85)])],
      [(''name'', PStr ''C''), (''marks'', PDict [(''math'', 85), (''sci'', 90)])],
      [(''name'', PStr ''D''), (''marks'', PDict [])]]"
    by (simp add: pass_fail_determination_def data example_students_def student_of_def
        marks_values_def getitem_def all_pass_def)
  have hl: "highest_and_lowest_scores example_world STUDENTS_FILE = Inr (Number 175, Number 0)"
    by (simp add: highest_and_lowest_scores_def data example_students_def student_of_def
        marks_values_def getitem_def all_pass_def py_max_def py_min_def)
  have rk: "calculate_rank example_world STUDENTS_FILE =
      Inr [(PStr ''B'', 1), (PStr ''C'', 2), (PStr ''D'', 3)]"
    by (simp add: calculate_rank_def data example_students_def student_of_def marks_values_def
        getitem_def all_pass_def sorted_by_total_desc_def)
  from empty_marks_pass [OF h mem marks name] h pf hl rk show ?thesis
    by (simp only: list_all_iff simp_thms)
qed

section \<open>Properties of the menu's operations\<close>

subsection \<open>The uniqueness check of \<open>add_new_teacher_from_user\<close>\<close>

text \<open>
  The check reads the key \<open>teacher_id\<close>, but \<open>Teacher.accept\<close> stores the id under
  the key \<open>id\<close>: over entries the program itself wrote the check never finds a
  duplicate.
\<close>

lemma teacher_id_check_dead:
  "list_all (\<lambda>teacher. map_of teacher ''teacher_id'' = None) teachers \<Longrightarrow>
   \<not> list_ex (\<lambda>teacher. dict_get teacher ''teacher_id'' = Some (PStr teacher_id)) teachers"
  by (induction teachers) (simp_all add: dict_get_def)

lemma Teacher_accept_no_teacher_id:
  "list_all (\<lambda>teacher. map_of teacher ''teacher_id'' = None) (read_json w file_path) \<Longrightarrow>
   list_all (\<lambda>teacher. map_of teacher ''teacher_id'' = None)
     (read_json (Teacher_accept w self file_path) file_path)"
  by (simp add: Teacher_accept_def append_json_def write_json_def py_print_def read_json_def)

lemma py_int_first: "py_int ''9876543210'' = Some 9876543210"
  by (simp add: py_int_def strip_def is_space_def parse_unsigned_def is_digit_def digit_value_def)

lemma py_int_second: "py_int ''9123456780'' = Some 9123456780"
  by (simp add: py_int_def strip_def is_space_def parse_unsigned_def is_digit_def digit_value_def)

lemma init_first:
  "Teacher_init ''Asha'' ''Maths'' ''T1'' ''Pune'' ''asha@school.org'' (PInt 9876543210) =
   Inr \<lparr>t_name = ''Asha'', t_subject = ''Maths'', t_teacher_id = ''T1'',
        t_address = ''Pune'', t_email = ''asha@school.org'', t_phone_number = PInt 9876543210\<rparr>"
  using validate_phone_number_accepts [of "PInt 9876543210"]
  by (simp add: Teacher_init_def validate_email_def re_match_def email_pattern_def)

lemma init_second:
  "Teacher_init ''Ravi'' ''Physics'' ''T1'' ''Delhi'' ''ravi@school.org'' (PInt 9123456780) =
   Inr \<lparr>t_name = ''Ravi'', t_subject = ''Physics'', t_teacher_id = ''T1'',
        t_address = ''Delhi'', t_email = ''ravi@school.org'', t_phone_number = PInt 9123456780\<rparr>"
  using validate_phone_number_accepts [of "PInt 9123456780"]
  by (simp add: Teacher_init_def validate_email_def re_match_def email_pattern_def)

lemma after_first_teacher_world:
  "after_first_teacher =
     \<lparr>files = [TEACHERS_FILE \<mapsto> [teacher_asha]],
      events = [Write TEACHERS_FILE, Print ''Teacher added successfully!'']\<rparr>"
  by (simp add: after_first_teacher_def add_new_teacher_from_user_def add_new_teacher_try_def
      empty_world_def read_json_def first_teacher_def py_int_first init_first Teacher_accept_def
      append_json_def write_json_def py_print_def teacher_asha_def)

lemma second_add:
  "add_new_teacher_from_user after_first_teacher TEACHERS_FILE login_asha second_teacher =
     (Inr (),
      \<lparr>files = [TEACHERS_FILE \<mapsto> [teacher_asha, teacher_ravi_t1]],
       events = [Write TEACHERS_FILE, Print ''Teacher added successfully!'',
                 Print verify_prompt, Print verified_msg,
                 Write TEACHERS_FILE, Print ''Teacher added successfully!'']\<rparr>)"
  by (simp add: after_first_teacher_world add_new_teacher_from_user_def add_new_teacher_try_def
      read_json_def second_teacher_def py_int_second init_second Teacher_accept_def append_json_def
      write_json_def py_print_def teacher_asha_def teacher_ravi_t1_def login_asha_def
      authenticate_teacher_def getitem_def dict_get_def)

text \<open>
  Claim C1: creating a teacher whose \<open>teacher_id\<close> equals the id of a stored teacher
  fails before any write and leaves the collection unchanged. In the code, a first
  teacher with id \<open>T1\<close> is added to the empty collection; then, logged in as that
  teacher, the user adds a second teacher with the same id \<open>T1\<close>: the function returns
  normally, no "Teacher ID must be unique." line is printed, the file is written, and
  the collection holds two teachers with id \<open>T1\<close>.
\<close>

theorem duplicate_teacher_id_stored:
  "read_json after_first_teacher TEACHERS_FILE = [teacher_asha] \<and>
   map_of teacher_asha ''id'' = Some (PStr (ti_teacher_id second_teacher)) \<and>
   fst (add_new_teacher_from_user after_first_teacher TEACHERS_FILE login_asha second_teacher) =
     Inr () \<and>
   read_json
     (snd (add_new_teacher_from_user after_first_teacher TEACHERS_FILE login_asha second_teacher))
     TEACHERS_FILE = [teacher_asha, teacher_ravi_t1] \<and>
   events
     (snd (add_new_teacher_from_user after_first_teacher TEACHERS_FILE login_asha second_teacher)) =
     events after_first_teacher @
       [Print verify_prompt, Print verified_msg, Write TEACHERS_FILE,
        Print ''Teacher added successfully!'']"
  by (simp add: second_add) (simp add: after_first_teacher_world read_json_def teacher_asha_def
      second_teacher_def)

subsection \<open>Writes and the authenticator\<close>

lemma auth_loop_True: "auth_loop data name teacher_id = Inr b \<Longrightarrow> b"
  by (induction data) (auto split: sum.splits if_splits)

lemma authenticate_teacher_cases:
  "(\<exists>e. authenticate_teacher w f n i = (Inl e, w)) \<or>
   authenticate_teacher w f n i = (Inr True, py_print w verified_msg)"
proof (cases "auth_loop (read_json w f) n i")
  case (Inl e)
  then show ?thesis by (simp add: authenticate_teacher_def)
next
  case (Inr b)
  with auth_loop_True [OF Inr] show ?thesis by (simp add: authenticate_teacher_def)
qed

lemma read_json_py_print: "read_json (py_print w msg) file_path = read_json w file_path"
  by (simp add: read_json_def py_print_def)

lemma authenticate_teacher_py_print:
  "fst (authenticate_teacher (py_print w msg) f n i) = fst (authenticate_teacher w f n i)"
  by (simp add: authenticate_teacher_def read_json_py_print split: sum.splits)

lemma add_new_teacher_events:
  assumes "read_json w file_path \<noteq> []"
  shows "\<exists>evs. events (snd (add_new_teacher_from_user w file_path lg inp)) = events w @ evs \<and>
     checked_writes False evs \<and>
     ((\<exists>p. Write p \<in> set evs) \<longrightarrow>
        fst (authenticate_teacher w file_path (login_name lg) (login_id lg)) = Inr True)"
proof -
  let ?w0 = "py_print w verify_prompt"
  from authenticate_teacher_cases [of ?w0 file_path "login_name lg" "login_id lg"]
  show ?thesis
  proof
    assume "\<exists>e. authenticate_teacher ?w0 file_path (login_name lg) (login_id lg) = (Inl e, ?w0)"
    then obtain e where "authenticate_teacher ?w0 file_path (login_name lg) (login_id lg) = (Inl e, ?w0)"
      by blast
    with assms show ?thesis
      by (cases e) (simp_all add: add_new_teacher_from_user_def add_new_teacher_try_def py_print_def
          verify_prompt_def verified_msg_def)
  next
    assume ok: "authenticate_teacher ?w0 file_path (login_name lg) (login_id lg) =
        (Inr True, py_print ?w0 verified_msg)"
    then have "fst (authenticate_teacher w file_path (login_name lg) (login_id lg)) = Inr True"
      using authenticate_teacher_py_print [of w verify_prompt file_path "login_name lg" "login_id lg"]
      by simp
    with ok assms show ?thesis
      by (auto simp: add_new_teacher_from_user_def add_new_teacher_try_def py_print_def
          Teacher_accept_def append_json_def write_json_def
          split: option.splits sum.splits error.splits)
  qed
qed

lemma add_new_student_events:
  "\<exists>evs. events (snd (add_new_student_from_user w students_file teachers_file lg inp)) =
       events w @ evs \<and> checked_writes False evs \<and>
     ((\<exists>p. Write p \<in> set evs) \<longrightarrow>
        fst (authenticate_teacher w teachers_file (login_name lg) (login_id lg)) = Inr True)"
proof -
  let ?w0 = "py_print w verify_prompt"
  from authenticate_teacher_cases [of ?w0 teachers_file "login_name lg" "login_id lg"]
  show ?thesis
  proof
    assume "\<exists>e. authenticate_teacher ?w0 teachers_file (login_name lg) (login_id lg) = (Inl e, ?w0)"
    then obtain e where "authenticate_teacher ?w0 teachers_file (login_name lg) (login_id lg) = (Inl e, ?w0)"
      by blast
    then show ?thesis
      by (cases e) (simp_all add: add_new_student_from_user_def add_new_student_try_def py_print_def
          verify_prompt_def verified_msg_def)
  next
    assume ok: "authenticate_teacher ?w0 teachers_file (login_name lg) (login_id lg) =
        (Inr True, py_print ?w0 verified_msg)"
    then have "fst (authenticate_teacher w teachers_file (login_name lg) (login_id lg)) = Inr True"
      using authenticate_teacher_py_print [of w verify_prompt teachers_file "login_name lg" "login_id lg"]
      by simp
    with ok show ?thesis
      by (auto simp: add_new_student_from_user_def add_new_student_try_def py_print_def
          Student_accept_def append_json_def write_json_def
          split: option.splits sum.splits error.splits)
  qed
qed

lemma new_events_append: "events w' = events w @ evs \<Longrightarrow> new_events w w' = evs"
  by (simp add: new_events_def)

lemma delete_record_no_check:
  "\<exists>evs. events (snd (delete_record w teachers_file students_file name)) = events w @ evs \<and>
     Print verified_msg \<notin> set evs"
  by (auto simp: delete_record_def deleted_flag_def Teacher_delete_def Student_delete_def
      write_json_def py_print_def verified_msg_def
      split: sum.splits error.splits prod.splits)

lemma delete_record_writes:
  assumes "\<forall>entry \<in> set (read_json w teachers_file). has_key ''name'' entry"
    and "\<forall>entry \<in> set (read_json w students_file). has_key ''name'' entry"
  shows "events (snd (delete_record w teachers_file students_file name)) =
     events w @ [Write teachers_file, Write students_file,
                 Print (''Record for '' @ name @ '' deleted successfully.'')]"
proof -
  let ?keep = "\<lambda>entry. map_of entry ''name'' \<noteq> Some (PStr name)"
  let ?w1 = "write_json w teachers_file (filter ?keep (read_json w teachers_file))"
  from assms(1) have t: "without_name (read_json w teachers_file) name =
      Inr (filter ?keep (read_json w teachers_file))"
    by (intro without_name_filter) (simp add: list_all_iff)
  have "read_json ?w1 students_file =
      (if students_file = teachers_file then filter ?keep (read_json w teachers_file)
       else read_json w students_file)"
    by (simp add: read_json_def write_json_def)
  with assms have "list_all (has_key ''name'') (read_json ?w1 students_file)"
    by (simp add: list_all_iff)
  from without_name_filter [OF this, of name] t show ?thesis
    by (simp add: delete_record_def deleted_flag_def Teacher_delete_def Student_delete_def
        write_json_def py_print_def)
qed

text \<open>
  Claim C4, as the code has it: adding a teacher writes only after a successful check of
  the authenticator whenever the teacher collection already holds an entry, and adding a
  student writes only after a successful check, in the order of events and in that
  \<open>authenticate_teacher\<close> returned True for the name and id typed. Deleting a record
  runs no check at all; over collections whose entries all have a name it writes both
  files.
\<close>

theorem adding_is_checked:
  "(read_json w teachers_file \<noteq> [] \<longrightarrow>
      checked_writes False
        (new_events w (snd (add_new_teacher_from_user w teachers_file lg inp))) \<and>
      ((\<exists>p. Write p \<in> set (new_events w (snd (add_new_teacher_from_user w teachers_file lg inp)))) \<longrightarrow>
         fst (authenticate_teacher w teachers_file (login_name lg) (login_id lg)) = Inr True)) \<and>
   checked_writes False
     (new_events w (snd (add_new_student_from_user w students_file teachers_file lg sinp))) \<and>
   ((\<exists>p. Write p \<in> set (new_events w
        (snd (add_new_student_from_user w students_file teachers_file lg sinp)))) \<longrightarrow>
      fst (authenticate_teacher w teachers_file (login_name lg) (login_id lg)) = Inr True) \<and>
   Print verified_msg \<notin>
     set (new_events w (snd (delete_record w teachers_file students_file name))) \<and>
   ((\<forall>entry \<in> set (read_json w teachers_file). has_key ''name'' entry) \<and>
    (\<forall>entry \<in> set (read_json w students_file). has_key ''name'' entry) \<longrightarrow>
      new_events w (snd (delete_record w teachers_file students_file name)) =
        [Write teachers_file, Write students_file,
         Print (''Record for '' @ name @ '' deleted successfully.'')])"
proof -
  have teacher: "read_json w teachers_file \<noteq> [] \<longrightarrow>
      checked_writes False
        (new_events w (snd (add_new_teacher_from_user w teachers_file lg inp))) \<and>
      ((\<exists>p. Write p \<in> set (new_events w (snd (add_new_teacher_from_user w teachers_file lg inp)))) \<longrightarrow>
         fst (authenticate_teacher w teachers_file (login_name lg) (login_id lg)) = Inr True)"
  proof
    assume "read_json w teachers_file \<noteq> []"
    from add_new_teacher_events [OF this, of lg inp] obtain evs
      where "events (snd (add_new_teacher_from_user w teachers_file lg inp)) = events w @ evs"
        and c: "checked_writes False evs"
          "(\<exists>p. Write p \<in> set evs) \<longrightarrow>
             fst (authenticate_teacher w teachers_file (login_name lg) (login_id lg)) = Inr True"
      by blast
    from new_events_append [OF this(1)] c
    show "checked_writes False
        (new_events w (snd (add_new_teacher_from_user w teachers_file lg inp))) \<and>
      ((\<exists>p. Write p \<in> set (new_events w (snd (add_new_teacher_from_user w teachers_file lg inp)))) \<longrightarrow>
         fst (authenticate_teacher w teachers_file (login_name lg) (login_id lg)) = Inr True)"
      by simp
  qed
  from add_new_student_events [of w students_file teachers_file lg sinp] obtain evs
    where "events (snd (add_new_student_from_user w students_file teachers_file lg sinp)) =
        events w @ evs"
      and c: "checked_writes False evs"
        "(\<exists>p. Write p \<in> set evs) \<longrightarrow>
           fst (authenticate_teacher w teachers_file (login_name lg) (login_id lg)) = Inr True"
    by blast
  from new_events_append [OF this(1)] c
  have student: "checked_writes False
     (new_events w (snd (add_new_student_from_user w students_file teachers_file lg sinp))) \<and>
   ((\<exists>p. Write p \<in> set (new_events w
        (snd (add_new_student_from_user w students_file teachers_file lg sinp)))) \<longrightarrow>
      fst (authenticate_teacher w teachers_file (login_name lg) (login_id lg)) = Inr True)"
    by simp
  from delete_record_no_check [of w teachers_file students_file name] obtain evs
    where "events (snd (delete_record w teachers_file students_file name)) = events w @ evs"
      and "Print verified_msg \<notin> set evs"
    by blast
  from new_events_append [OF this(1)] this(2)
  have del: "Print verified_msg \<notin>
     set (new_events w (snd (delete_record w teachers_file students_file name)))"
    by simp
  have delw: "(\<forall>entry \<in> set (read_json w teachers_file). has_key ''name'' entry) \<and>
    (\<forall>entry \<in> set (read_json w students_file). has_key ''name'' entry) \<longrightarrow>
      new_events w (snd (delete_record w teachers_file students_file name)) =
        [Write teachers_file, Write students_file,
         Print (''Record for '' @ name @ '' deleted successfully.'')]"
    using delete_record_writes [of w teachers_file students_file name]
    by (auto intro: new_events_append)
  from teacher student del delw show ?thesis by blast
qed

theorem adding_is_checked_witness:
  "read_json example_world TEACHERS_FILE \<noteq> [] \<and>
   new_events example_world
     (snd (add_new_student_from_user example_world STUDENTS_FILE TEACHERS_FILE login_asha new_student)) =
     [Print verify_prompt, Print verified_msg, Write STUDENTS_FILE,
      Print ''Student added successfully!''] \<and>
   checked_writes False
     (new_events example_world
        (snd (add_new_teacher_from_user example_world TEACHERS_FILE login_asha first_teacher))) \<and>
   checked_writes False
     (new_events example_world
        (snd (add_new_student_from_user example_world STUDENTS_FILE TEACHERS_FILE login_asha new_student))) \<and>
   fst (authenticate_teacher example_world TEACHERS_FILE (login_name login_asha) (login_id login_asha)) =
     Inr True"
proof -
  have ne: "read_json example_world TEACHERS_FILE \<noteq> []"
    by (simp add: read_json_def example_defs)
  have ev: "new_events example_world
     (snd (add_new_student_from_user example_world STUDENTS_FILE TEACHERS_FILE login_asha new_student)) =
     [Print verify_prompt, Print verified_msg, Write STUDENTS_FILE,
      Print ''Student added successfully!'']"
    by (simp add: new_events_def add_new_student_from_user_def add_new_student_try_def
        authenticate_teacher_def read_json_def getitem_def example_defs login_asha_def
        new_student_def py_print_def py_int_def strip_def is_space_def parse_unsigned_def
        is_digit_def digit_value_def Student_accept_def Student_init_def append_json_def
        write_json_def)
  from adding_is_checked [of example_world TEACHERS_FILE login_asha first_teacher STUDENTS_FILE
      new_student "''Asha''"] ne ev
  show ?thesis by simp
qed

text \<open>
  Claim C4 as stated, for every operation that writes, fails for \<open>delete_record\<close>:
  with teachers and students stored, deleting by name writes both files and no check of
  the authenticator stands before the writes.
\<close>

theorem delete_record_unchecked:
  "read_json example_world TEACHERS_FILE \<noteq> [] \<and>
   read_json example_world STUDENTS_FILE \<noteq> [] \<and>
   new_events example_world (snd (delete_record example_world TEACHERS_FILE STUDENTS_FILE ''Asha'')) =
     [Write TEACHERS_FILE, Write STUDENTS_FILE, Print ''Record for Asha deleted successfully.''] \<and>
   \<not> checked_writes False
     (new_events example_world
        (snd (delete_record example_world TEACHERS_FILE STUDENTS_FILE ''Asha'')))"
proof -
  have ev: "new_events example_world (snd (delete_record example_world TEACHERS_FILE STUDENTS_FILE ''Asha'')) =
     [Write TEACHERS_FILE, Write STUDENTS_FILE, Print ''Record for Asha deleted successfully.'']"
    by (simp add: new_events_def delete_record_def deleted_flag_def Teacher_delete_def
        Student_delete_def write_json_def py_print_def read_json_def getitem_def example_defs)
  show ?thesis
    by (simp add: ev) (simp add: read_json_def example_defs)
qed

end
